theory Spec2Isabelle
  imports Main "HOL-Library.Monad_Syntax"
begin

section \<open>Python values used by ProText\<close>

text \<open>
  A Python \<^verbatim>\<open>str\<close> is a sequence of Unicode code points, and \<^verbatim>\<open>len\<close> counts code
  points. A string is therefore a list of code points (natural numbers), and \<open>str\<close>
  turns an ASCII literal of the theory into such a list. Python integers are unbounded
  and may be negative, so cursor and viewport coordinates are of type \<open>int\<close>.
\<close>

type_synonym pystr = "nat list"

definition str :: "string \<Rightarrow> pystr" where
  "str s = map of_char s"

subsection \<open>Subscripts, slices and list methods\<close>

text \<open>
  \<^verbatim>\<open>xs[i]\<close> accepts \<open>- len \<le> i < len\<close>, a negative index counting from the end, and
  raises IndexError otherwise: \<open>None\<close> stands for the raised IndexError.
\<close>

definition py_index :: "nat \<Rightarrow> int \<Rightarrow> nat option" where
  "py_index n i =
     (if 0 \<le> i \<and> i < int n then Some (nat i)
      else if i < 0 \<and> - int n \<le> i then Some (nat (int n + i))
      else None)"

definition getitem :: "'a list \<Rightarrow> int \<Rightarrow> 'a option" where
  "getitem xs i = map_option (\<lambda>k. xs ! k) (py_index (length xs) i)"

definition setitem :: "'a list \<Rightarrow> int \<Rightarrow> 'a \<Rightarrow> 'a list option" where
  "setitem xs i v = map_option (\<lambda>k. xs[k := v]) (py_index (length xs) i)"

text \<open>\<^verbatim>\<open>xs.pop(i)\<close> returns the removed element; the model also returns the shortened list.\<close>

definition pop :: "'a list \<Rightarrow> int \<Rightarrow> ('a \<times> 'a list) option" where
  "pop xs i = map_option (\<lambda>k. (xs ! k, take k xs @ drop (Suc k) xs)) (py_index (length xs) i)"

text \<open>
  A slice bound never raises: a negative bound counts from the end and every bound is
  clipped to \<open>[0, len]\<close>. \<^verbatim>\<open>xs.insert(i, v)\<close> clips its position in the same way.
\<close>

definition slice_bound :: "nat \<Rightarrow> int \<Rightarrow> nat" where
  "slice_bound n i = (if i < 0 then nat (int n + i) else min (nat i) n)"

definition slice_to :: "'a list \<Rightarrow> int \<Rightarrow> 'a list" where
  "slice_to xs i = take (slice_bound (length xs) i) xs"

definition slice_from :: "'a list \<Rightarrow> int \<Rightarrow> 'a list" where
  "slice_from xs i = drop (slice_bound (length xs) i) xs"

definition list_insert :: "'a list \<Rightarrow> int \<Rightarrow> 'a \<Rightarrow> 'a list" where
  "list_insert xs i v = (let k = slice_bound (length xs) i in take k xs @ v # drop k xs)"

subsection \<open>String methods\<close>

text \<open>
  \<open>first_occ sub s\<close> is the offset of the leftmost occurrence of \<open>sub\<close> in \<open>s\<close>.
  \<^verbatim>\<open>s.find(sub, start)\<close> adds \<open>len s\<close> to a negative \<open>start\<close>, clips it at 0, answers
  \<open>-1\<close> when \<open>start\<close> lies beyond the end, and otherwise searches \<open>s[start:]\<close>.
  \<^verbatim>\<open>sub in s\<close> is \<open>contains s sub\<close>.
\<close>

fun first_occ :: "'a list \<Rightarrow> 'a list \<Rightarrow> nat option" where
  "first_occ sub [] = (if sub = [] then Some 0 else None)"
| "first_occ sub (c # cs) =
     (if take (length sub) (c # cs) = sub then Some 0
      else map_option Suc (first_occ sub cs))"

definition str_find :: "pystr \<Rightarrow> pystr \<Rightarrow> int \<Rightarrow> int" where
  "str_find s sub start =
     (let n = length s;
          st = (if start < 0 then nat (int n + start) else nat start)
      in if n < st then - 1
         else (case first_occ sub (drop st s) of
                 None \<Rightarrow> - 1
               | Some k \<Rightarrow> int (st + k)))"

definition contains :: "pystr \<Rightarrow> pystr \<Rightarrow> bool" where
  "contains s sub = (first_occ sub s \<noteq> None)"

text \<open>
  \<^verbatim>\<open>s.count(sub)\<close> and \<^verbatim>\<open>s.replace(old, new)\<close> walk over \<open>s\<close> from the left; at an
  occurrence they step over the whole occurrence, so occurrences do not overlap and the
  inserted text is never scanned. For the empty pattern Python counts \<open>len s + 1\<close>
  occurrences and puts \<open>new\<close> before every character and at the end.
\<close>

fun count_occ :: "'a list \<Rightarrow> 'a list \<Rightarrow> nat" where
  "count_occ sub [] = 0"
| "count_occ sub (c # cs) =
     (if take (length sub) (c # cs) = sub
      then Suc (count_occ sub (drop (length sub - 1) cs))
      else count_occ sub cs)"

definition str_count :: "pystr \<Rightarrow> pystr \<Rightarrow> nat" where
  "str_count s sub = (if sub = [] then length s + 1 else count_occ sub s)"

fun replace_occ :: "'a list \<Rightarrow> 'a list \<Rightarrow> 'a list \<Rightarrow> 'a list" where
  "replace_occ sub new [] = []"
| "replace_occ sub new (c # cs) =
     (if take (length sub) (c # cs) = sub
      then new @ replace_occ sub new (drop (length sub - 1) cs)
      else c # replace_occ sub new cs)"

definition str_replace :: "pystr \<Rightarrow> pystr \<Rightarrow> pystr \<Rightarrow> pystr" where
  "str_replace s old new =
     (if old = [] then new @ concat (map (\<lambda>c. c # new) s) else replace_occ old new s)"

section \<open>Buffer\<close>

record buffer =
  filename :: "pystr option"
  lines :: "pystr list"
  modified :: bool
  readonly :: bool

section \<open>Editor\<close>

text \<open>
  The fields of \<^verbatim>\<open>Editor\<close>. \<open>stdscr\<close> holds what \<^verbatim>\<open>stdscr.getmaxyx()\<close> answers, the
  terminal's height and width. The viewport offsets \<^verbatim>\<open>top\<close> and \<^verbatim>\<open>left\<close> are the fields
  \<open>top_row\<close> and \<open>left_col\<close>. Drawing on the screen is output only and is not part of
  the model.
\<close>

record editor =
  stdscr :: "int \<times> int"
  buf :: buffer
  cy :: int
  cx :: int
  top_row :: int
  left_col :: int
  msg :: pystr
  last_search :: "pystr option"
  search_results :: "pystr list"
  replace_confirm_all :: bool

definition ensure_cursor_visible :: "editor \<Rightarrow> editor" where
  "ensure_cursor_visible e =
     (let (h, w) = stdscr e;
          text_h = h - 1;
          e1 = (if cy e < top_row e then e\<lparr>top_row := cy e\<rparr>
                else if top_row e + text_h \<le> cy e then e\<lparr>top_row := cy e - text_h + 1\<rparr>
                else e)
      in if cx e1 < left_col e1 then e1\<lparr>left_col := cx e1\<rparr>
         else if left_col e1 + w - 1 \<le> cx e1 then e1\<lparr>left_col := cx e1 - w + 2\<rparr>
         else e1)"

text \<open>
  The editing operations. Each returns \<open>None\<close> where the Python raises IndexError, which
  ends the program.
\<close>

definition set_lines :: "editor \<Rightarrow> pystr list \<Rightarrow> editor" where
  "set_lines e ls = e\<lparr>buf := (buf e)\<lparr>lines := ls\<rparr>\<rparr>"

definition set_modified :: "editor \<Rightarrow> editor" where
  "set_modified e = e\<lparr>buf := (buf e)\<lparr>modified := True\<rparr>\<rparr>"

definition move_left :: "editor \<Rightarrow> editor option" where
  "move_left e =
     (if 0 < cx e then Some (ensure_cursor_visible (e\<lparr>cx := cx e - 1\<rparr>))
      else if 0 < cy e then
        do {
          let e1 = e\<lparr>cy := cy e - 1\<rparr>;
          line \<leftarrow> getitem (lines (buf e1)) (cy e1);
          Some (ensure_cursor_visible (e1\<lparr>cx := int (length line)\<rparr>))
        }
      else Some (ensure_cursor_visible e))"

definition move_right :: "editor \<Rightarrow> editor option" where
  "move_right e =
     do {
       line \<leftarrow> getitem (lines (buf e)) (cy e);
       if cx e < int (length line) then Some (ensure_cursor_visible (e\<lparr>cx := cx e + 1\<rparr>))
       else if cy e < int (length (lines (buf e))) - 1
         then Some (ensure_cursor_visible (e\<lparr>cy := cy e + 1, cx := 0\<rparr>))
       else Some (ensure_cursor_visible e)
     }"

definition move_up :: "editor \<Rightarrow> editor option" where
  "move_up e =
     (if 0 < cy e then
        do {
          let e1 = e\<lparr>cy := cy e - 1\<rparr>;
          line \<leftarrow> getitem (lines (buf e1)) (cy e1);
          Some (ensure_cursor_visible (e1\<lparr>cx := min (cx e1) (int (length line))\<rparr>))
        }
      else Some (ensure_cursor_visible e))"

definition move_down :: "editor \<Rightarrow> editor option" where
  "move_down e =
     (if cy e < int (length (lines (buf e))) - 1 then
        do {
          let e1 = e\<lparr>cy := cy e + 1\<rparr>;
          line \<leftarrow> getitem (lines (buf e1)) (cy e1);
          Some (ensure_cursor_visible (e1\<lparr>cx := min (cx e1) (int (length line))\<rparr>))
        }
      else Some (ensure_cursor_visible e))"

definition insert_char :: "editor \<Rightarrow> pystr \<Rightarrow> editor option" where
  "insert_char e ch =
     do {
       line \<leftarrow> getitem (lines (buf e)) (cy e);
       ls \<leftarrow> setitem (lines (buf e)) (cy e) (slice_to line (cx e) @ ch @ slice_from line (cx e));
       Some (set_modified ((set_lines e ls)\<lparr>cx := cx e + 1\<rparr>))
     }"

definition backspace :: "editor \<Rightarrow> editor option" where
  "backspace e =
     (if 0 < cx e then
        do {
          line \<leftarrow> getitem (lines (buf e)) (cy e);
          ls \<leftarrow> setitem (lines (buf e)) (cy e)
                  (slice_to line (cx e - 1) @ slice_from line (cx e));
          Some (set_modified ((set_lines e ls)\<lparr>cx := cx e - 1\<rparr>))
        }
      else if 0 < cy e then
        do {
          prev \<leftarrow> getitem (lines (buf e)) (cy e - 1);
          (cur, ls1) \<leftarrow> pop (lines (buf e)) (cy e);
          ls2 \<leftarrow> setitem ls1 (cy e - 1) (prev @ cur);
          Some (ensure_cursor_visible
                  (set_modified ((set_lines e ls2)\<lparr>cy := cy e - 1, cx := int (length prev)\<rparr>)))
        }
      else Some e)"

definition insert_newline :: "editor \<Rightarrow> editor option" where
  "insert_newline e =
     do {
       line \<leftarrow> getitem (lines (buf e)) (cy e);
       let left = slice_to line (cx e);
       let right = slice_from line (cx e);
       ls1 \<leftarrow> setitem (lines (buf e)) (cy e) left;
       let ls2 = list_insert ls1 (cy e + 1) right;
       Some (ensure_cursor_visible
               (set_modified ((set_lines e ls2)\<lparr>cy := cy e + 1, cx := 0\<rparr>)))
     }"

definition delete_char :: "editor \<Rightarrow> editor option" where
  "delete_char e =
     do {
       line \<leftarrow> getitem (lines (buf e)) (cy e);
       if cx e < int (length line) then
         do {
           ls \<leftarrow> setitem (lines (buf e)) (cy e)
                   (slice_to line (cx e) @ slice_from line (cx e + 1));
           Some (set_modified (set_lines e ls))
         }
       else if cy e < int (length (lines (buf e))) - 1 then
         do {
           (nxt, ls1) \<leftarrow> pop (lines (buf e)) (cy e + 1);
           ls2 \<leftarrow> setitem ls1 (cy e) (line @ nxt);
           Some (set_modified (set_lines e ls2))
         }
       else Some e
     }"

definition Editor_init :: "int \<times> int \<Rightarrow> buffer \<Rightarrow> editor" where
  "Editor_init scr b =
     \<lparr>stdscr = scr, buf = b, cy = 0, cx = 0, top_row = 0, left_col = 0,
      msg = str ''ProText 0.1 (Ctrl-S save, Ctrl-C quit)'',
      last_search = None, search_results = [], replace_confirm_all = False\<rparr>"

subsection \<open>Search\<close>

text \<open>
  One \<^verbatim>\<open>for y in range(...)\<close> loop of \<^verbatim>\<open>find\<close>: the rows are visited in the order of
  the list, \<open>start y\<close> is the offset given to \<^verbatim>\<open>str.find\<close> on row \<open>y\<close>, and the loop
  stops at the first row with a match.
\<close>

fun scan_rows ::
  "pystr list \<Rightarrow> pystr \<Rightarrow> (int \<Rightarrow> int) \<Rightarrow> int list \<Rightarrow> (int \<times> int) option option" where
  "scan_rows ls term start [] = Some None"
| "scan_rows ls term start (y # ys) =
     do {
       line \<leftarrow> getitem ls y;
       let x = str_find line term (start y);
       if x \<noteq> - 1 then Some (Some (y, x)) else scan_rows ls term start ys
     }"

definition found_at :: "editor \<Rightarrow> pystr \<Rightarrow> int \<times> int \<Rightarrow> editor" where
  "found_at e term p =
     (ensure_cursor_visible (e\<lparr>cy := fst p, cx := snd p\<rparr>))\<lparr>last_search := Some term\<rparr>"

definition find_editor :: "editor \<Rightarrow> pystr \<Rightarrow> (bool \<times> editor) option" where
  "find_editor e term =
     do {
       r1 \<leftarrow> scan_rows (lines (buf e)) term (\<lambda>y. if y = cy e then cx e else 0)
               [cy e..int (length (lines (buf e))) - 1];
       case r1 of
         Some p \<Rightarrow> Some (True, found_at e term p)
       | None \<Rightarrow>
           do {
             r2 \<leftarrow> scan_rows (lines (buf e)) term (\<lambda>y. 0) [0..cy e - 1];
             case r2 of
               Some p \<Rightarrow> Some (True, found_at e term p)
             | None \<Rightarrow> Some (False, e)
           }
     }"

subsection \<open>Replace\<close>

fun replace_lines :: "pystr \<Rightarrow> pystr \<Rightarrow> pystr list \<Rightarrow> nat \<Rightarrow> pystr list \<times> nat" where
  "replace_lines find_term replace_term [] count = ([], count)"
| "replace_lines find_term replace_term (line # rest) count =
     (if contains line find_term
      then (let (rest', count') =
                  replace_lines find_term replace_term rest (count + str_count line find_term)
            in (str_replace line find_term replace_term # rest', count'))
      else (let (rest', count') = replace_lines find_term replace_term rest count
            in (line # rest', count')))"

definition replace_all :: "editor \<Rightarrow> pystr \<Rightarrow> pystr \<Rightarrow> nat \<times> editor" where
  "replace_all e find_term replace_term =
     (let (ls, count) = replace_lines find_term replace_term (lines (buf e)) 0;
          e1 = set_lines e ls
      in (count, if 0 < count then set_modified e1 else e1))"

section \<open>Files\<close>

text \<open>
  The file system maps a path to the text of the file there. \<^verbatim>\<open>open(..., "w")\<close> and
  the writes may fail for reasons outside the program; \<open>io_fault\<close> says what the
  environment does to the next save: nothing, an exception at \<^verbatim>\<open>open\<close> (the file is
  untouched), or an exception after \<open>k\<close> lines were written to the truncated file. The
  string is \<^verbatim>\<open>str(e)\<close> of the exception. The program runs on POSIX only (it imports
  \<^verbatim>\<open>termios\<close>), where text mode writes \<^verbatim>\<open>"\n"\<close> as it is.
\<close>

type_synonym files = "pystr \<rightharpoonup> pystr"

datatype io_fault = NoFault | OpenFault pystr | WriteFault nat pystr

definition file_text :: "pystr list \<Rightarrow> pystr" where
  "file_text ls = concat (map (\<lambda>line. line @ [10]) ls)"

definition save :: "io_fault \<Rightarrow> files \<Rightarrow> buffer \<Rightarrow> (bool \<times> pystr) \<times> buffer \<times> files" where
  "save flt fs b =
     (case filename b of
        None \<Rightarrow> ((False, str ''No filename''), b, fs)
      | Some fn \<Rightarrow>
          if fn = [] then ((False, str ''No filename''), b, fs)
          else if readonly b then ((False, str ''File is read-only''), b, fs)
          else (case flt of
                  OpenFault m \<Rightarrow> ((False, m), b, fs)
                | WriteFault k m \<Rightarrow> ((False, m), b, fs(fn \<mapsto> file_text (take k (lines b))))
                | NoFault \<Rightarrow>
                    ((True, str ''Saved''), b\<lparr>modified := False\<rparr>,
                     fs(fn \<mapsto> file_text (lines b)))))"

text \<open>
  Reading in text mode with the default \<^verbatim>\<open>newline=None\<close> turns \<^verbatim>\<open>"\r\n"\<close> and a lone
  \<^verbatim>\<open>"\r"\<close> into \<^verbatim>\<open>"\n"\<close>; iterating over the file then yields the pieces that end
  in \<^verbatim>\<open>"\n"\<close> and a last piece without one when the text does not end in \<^verbatim>\<open>"\n"\<close>.
  \<^verbatim>\<open>rstrip('\n')\<close> removes every trailing \<^verbatim>\<open>"\n"\<close>.
\<close>

fun universal_newlines :: "pystr \<Rightarrow> pystr" where
  "universal_newlines [] = []"
| "universal_newlines [c] = (if c = 13 then [10] else [c])"
| "universal_newlines (c # d # ds) =
     (if c = 13 \<and> d = 10 then 10 # universal_newlines ds
      else if c = 13 then 10 # universal_newlines (d # ds)
      else c # universal_newlines (d # ds))"

fun file_lines :: "pystr \<Rightarrow> pystr \<Rightarrow> pystr list" where
  "file_lines cur [] = (if cur = [] then [] else [cur])"
| "file_lines cur (c # cs) =
     (if c = 10 then (cur @ [c]) # file_lines [] cs else file_lines (cur @ [c]) cs)"

definition rstrip_nl :: "pystr \<Rightarrow> pystr" where
  "rstrip_nl s = rev (dropWhile (\<lambda>c. c = 10) (rev s))"

text \<open>
  \<^verbatim>\<open>Buffer(filename)\<close>. \<open>fs f = None\<close> is \<^verbatim>\<open>os.path.exists\<close> answering False;
  \<open>access f\<close> is the answer of \<^verbatim>\<open>os.access(f, os.W_OK)\<close>, \<open>None\<close> when it raises.
\<close>

definition Buffer_init :: "files \<Rightarrow> (pystr \<Rightarrow> bool option) \<Rightarrow> pystr option \<Rightarrow> buffer" where
  "Buffer_init fs access fn =
     (let b = \<lparr>filename = fn, lines = [[]], modified = False, readonly = False\<rparr>
      in case fn of
           None \<Rightarrow> b
         | Some f \<Rightarrow>
             if f = [] then b
             else (case fs f of
                     None \<Rightarrow> b
                   | Some text \<Rightarrow>
                       (let ls = map rstrip_nl (file_lines [] (universal_newlines text))
                        in b\<lparr>lines := (if ls = [] then [[]] else ls),
                             readonly := (case access f of Some False \<Rightarrow> True | _ \<Rightarrow> False)\<rparr>)))"

section \<open>The interactive loop\<close>

text \<open>
  \<^verbatim>\<open>get_wch\<close> answers a one-character string (\<open>Ch c\<close>, with \<open>c\<close> its code point) or
  the integer code of a function key. The keys still to be read form a list; reading
  from the empty list never returns, which is the outcome \<open>InputExhausted\<close>.
\<close>

datatype key =
  Ch nat | KEY_LEFT | KEY_RIGHT | KEY_UP | KEY_DOWN | KEY_BACKSPACE | KEY_DC
  | KEY_HOME | KEY_END | KEY_PPAGE | KEY_NPAGE | KEY_OTHER

text \<open>
  The loop of \<^verbatim>\<open>prompt_input\<close> over its local \<^verbatim>\<open>buf\<close> and \<^verbatim>\<open>pos\<close>. \<open>pos\<close> starts at
  the length of the initial text and stays within \<open>[0, len buf]\<close>, so \<^verbatim>\<open>buf.pop(pos - 1)\<close>
  and \<^verbatim>\<open>buf.insert(pos, ch)\<close> are the plain list operations. The result is the answer
  (\<open>None\<close> after Escape) and the keys left.
\<close>

fun prompt_loop :: "pystr \<Rightarrow> nat \<Rightarrow> key list \<Rightarrow> (pystr option \<times> key list) option" where
  "prompt_loop b pos [] = None"
| "prompt_loop b pos (Ch c # ks) =
     (if c = 10 then Some (Some b, ks)
      else if c = 27 then Some (None, ks)
      else if c = 127 \<or> c = 8 then
        (if 0 < pos then prompt_loop (take (pos - 1) b @ drop pos b) (pos - 1) ks
         else prompt_loop b pos ks)
      else if 32 \<le> c then prompt_loop (take pos b @ c # drop pos b) (pos + 1) ks
      else prompt_loop b pos ks)"
| "prompt_loop b pos (KEY_LEFT # ks) =
     (if 0 < pos then prompt_loop b (pos - 1) ks else prompt_loop b pos ks)"
| "prompt_loop b pos (KEY_RIGHT # ks) =
     (if pos < length b then prompt_loop b (pos + 1) ks else prompt_loop b pos ks)"
| "prompt_loop b pos (k # ks) = prompt_loop b pos ks"

definition prompt_input ::
  "pystr \<Rightarrow> pystr \<Rightarrow> key list \<Rightarrow> (pystr option \<times> key list) option" where
  "prompt_input prompt initial ks = prompt_loop initial (length initial) ks"

text \<open>
  \<^verbatim>\<open>ans.lower().startswith('y')\<close>: the only code points whose lower-case form begins
  with \<open>y\<close> are \<open>y\<close> and \<open>Y\<close>. \<^verbatim>\<open>strip()\<close> removes the white space of \<^verbatim>\<open>str.isspace\<close>
  at both ends, and lower-casing neither makes nor removes white space.
\<close>

definition lower_startswith_y :: "pystr \<Rightarrow> bool" where
  "lower_startswith_y ans = (case ans of [] \<Rightarrow> False | c # _ \<Rightarrow> c = 121 \<or> c = 89)"

definition isspace :: "nat \<Rightarrow> bool" where
  "isspace c =
     ((9 \<le> c \<and> c \<le> 13) \<or> (28 \<le> c \<and> c \<le> 32) \<or> c = 133 \<or> c = 160 \<or> c = 5760
      \<or> (8192 \<le> c \<and> c \<le> 8202) \<or> c = 8232 \<or> c = 8233 \<or> c = 8239 \<or> c = 8287
      \<or> c = 12288)"

definition confirm_prompt :: "pystr \<Rightarrow> key list \<Rightarrow> (bool \<times> key list) option" where
  "confirm_prompt prompt ks =
     do {
       (ans, ks') \<leftarrow> prompt_input prompt (str ''n'') ks;
       case ans of
         None \<Rightarrow> Some (False, ks')
       | Some a \<Rightarrow> Some (lower_startswith_y (dropWhile isspace a), ks')
     }"

text \<open>The decimal digits of \<^verbatim>\<open>count\<close> in the message of a replacement.\<close>

fun decimal :: "nat \<Rightarrow> pystr" where
  "decimal n = (if n < 10 then [48 + n] else decimal (n div 10) @ [48 + n mod 10])"

declare decimal.simps [simp del]

text \<open>
  The state of a session: the editor, the keys not yet read and the file system. One
  pass through the body of \<^verbatim>\<open>while True\<close> in \<^verbatim>\<open>run\<close> reads a key and either goes on
  (\<open>Continue\<close>, also for the Python \<^verbatim>\<open>continue\<close>), leaves the loop (\<open>Break\<close>) or raises.
\<close>

record session =
  ed :: editor
  pending :: "key list"
  disk :: files

datatype exn = IndexError | KeyboardInterrupt | InputExhausted

datatype flow = Continue | Break

type_synonym step_result = "exn + flow \<times> session"

definition lift :: "session \<Rightarrow> editor option \<Rightarrow> step_result" where
  "lift s r = (case r of None \<Rightarrow> Inl IndexError | Some e \<Rightarrow> Inr (Continue, s\<lparr>ed := e\<rparr>))"

definition set_msg :: "session \<Rightarrow> pystr \<Rightarrow> session" where
  "set_msg s m = s\<lparr>ed := (ed s)\<lparr>msg := m\<rparr>\<rparr>"

definition exit_unsaved :: "session \<Rightarrow> step_result" where
  "exit_unsaved s =
     (case confirm_prompt (str ''Exit without saving? (y/n)'') (pending s) of
        None \<Rightarrow> Inl InputExhausted
      | Some (ok, ks) \<Rightarrow>
          if ok then Inr (Break, s\<lparr>pending := ks\<rparr>)
          else Inr (Continue, set_msg (s\<lparr>pending := ks\<rparr>) (str ''Exit cancelled'')))"

definition ctrl_q :: "session \<Rightarrow> step_result" where
  "ctrl_q s =
     (if modified (buf (ed s)) then exit_unsaved s
      else (case confirm_prompt (str ''Quit? (y/n)'') (pending s) of
              None \<Rightarrow> Inl InputExhausted
            | Some (ok, ks) \<Rightarrow>
                if ok then Inr (Break, s\<lparr>pending := ks\<rparr>)
                else Inr (Continue, set_msg (s\<lparr>pending := ks\<rparr>) (str ''Quit cancelled''))))"

definition plain_q :: "session \<Rightarrow> step_result" where
  "plain_q s = (if modified (buf (ed s)) then exit_unsaved s else Inr (Break, s))"

definition do_save :: "io_fault \<Rightarrow> session \<Rightarrow> step_result" where
  "do_save flt s =
     (let ((ok, m), b, fs) = save flt (disk s) (buf (ed s))
      in Inr (Continue, s\<lparr>ed := (ed s)\<lparr>buf := b, msg := m\<rparr>, disk := fs\<rparr>))"

definition ctrl_s :: "io_fault \<Rightarrow> session \<Rightarrow> step_result" where
  "ctrl_s flt s =
     (if filename (buf (ed s)) = None \<or> filename (buf (ed s)) = Some [] then
        (case prompt_input (str ''Save as:'') [] (pending s) of
           None \<Rightarrow> Inl InputExhausted
         | Some (fn, ks) \<Rightarrow>
             if fn = None \<or> fn = Some []
             then Inr (Continue, set_msg (s\<lparr>pending := ks\<rparr>) (str ''Save cancelled''))
             else do_save flt
                    (s\<lparr>ed := (ed s)\<lparr>buf := (buf (ed s))\<lparr>filename := fn\<rparr>\<rparr>, pending := ks\<rparr>))
      else do_save flt s)"

definition ctrl_f :: "session \<Rightarrow> step_result" where
  "ctrl_f s =
     (case prompt_input (str ''Find:'') [] (pending s) of
        None \<Rightarrow> Inl InputExhausted
      | Some (ans, ks) \<Rightarrow>
          (case ans of
             None \<Rightarrow> Inr (Continue, s\<lparr>pending := ks\<rparr>)
           | Some term \<Rightarrow>
               if term = [] then Inr (Continue, s\<lparr>pending := ks\<rparr>)
               else (case find_editor (ed s) term of
                       None \<Rightarrow> Inl IndexError
                     | Some (found, e) \<Rightarrow>
                         Inr (Continue,
                              s\<lparr>ed := e\<lparr>msg := (if found
                                                 then str ''Found '' @ [39] @ term @ [39]
                                                 else [39] @ term @ [39] @ str '' not found'')\<rparr>,
                                pending := ks\<rparr>))))"

definition ctrl_r :: "session \<Rightarrow> step_result" where
  "ctrl_r s =
     (case prompt_input (str ''Replace - find:'') [] (pending s) of
        None \<Rightarrow> Inl InputExhausted
      | Some (ans1, ks1) \<Rightarrow>
          (case ans1 of
             None \<Rightarrow> Inr (Continue, s\<lparr>pending := ks1\<rparr>)
           | Some find_term \<Rightarrow>
               if find_term = [] then Inr (Continue, s\<lparr>pending := ks1\<rparr>)
               else (case prompt_input (str ''Replace - with:'') [] ks1 of
                       None \<Rightarrow> Inl InputExhausted
                     | Some (ans2, ks2) \<Rightarrow>
                         (case ans2 of
                            None \<Rightarrow>
                              Inr (Continue, set_msg (s\<lparr>pending := ks2\<rparr>) (str ''Replace cancelled''))
                          | Some replace_term \<Rightarrow>
                              (case prompt_input (str ''Replace all occurrences? (y/n):'') [] ks2 of
                                 None \<Rightarrow> Inl InputExhausted
                               | Some (ans3, ks3) \<Rightarrow>
                                   if (case ans3 of None \<Rightarrow> False | Some a \<Rightarrow> lower_startswith_y a)
                                   then (let (count, e) = replace_all (ed s) find_term replace_term
                                         in Inr (Continue,
                                                 s\<lparr>ed := e\<lparr>msg := str ''Replaced '' @ decimal count
                                                                    @ str '' occurrences''\<rparr>,
                                                   pending := ks3\<rparr>))
                                   else Inr (Continue,
                                             set_msg (s\<lparr>pending := ks3\<rparr>)
                                               (str ''Replace cancelled'')))))))"

text \<open>The branch of \<^verbatim>\<open>run\<close> for a key that \<^verbatim>\<open>get_wch\<close> gives as a string.\<close>

definition handle_str :: "io_fault \<Rightarrow> session \<Rightarrow> nat \<Rightarrow> step_result" where
  "handle_str flt s c =
     (if c = 17 then ctrl_q s
      else if c = 19 then ctrl_s flt s
      else if c = 8 \<or> c = 127 then lift s (backspace (ed s))
      else if c = 10 then lift s (insert_newline (ed s))
      else if c = 3 then Inl KeyboardInterrupt
      else if c = 113 \<or> c = 81 then plain_q s
      else if c = 6 then ctrl_f s
      else if c = 18 then ctrl_r s
      else if 32 \<le> c then lift s (insert_char (ed s) [c])
      else Inr (Continue, s))"

text \<open>The Home, End and page keys, which \<^verbatim>\<open>run\<close> handles in line.\<close>

definition key_home :: "editor \<Rightarrow> editor" where
  "key_home e = e\<lparr>cx := 0\<rparr>"

definition key_end :: "editor \<Rightarrow> editor option" where
  "key_end e = do { line \<leftarrow> getitem (lines (buf e)) (cy e); Some (e\<lparr>cx := int (length line)\<rparr>) }"

definition key_page :: "bool \<Rightarrow> editor \<Rightarrow> editor" where
  "key_page up e =
     (let (h, w) = stdscr e;
          delta = h - 2
      in ensure_cursor_visible
           (if up then e\<lparr>cy := max 0 (cy e - delta)\<rparr>
            else e\<lparr>cy := min (int (length (lines (buf e))) - 1) (cy e + delta)\<rparr>))"

fun handle_special :: "session \<Rightarrow> key \<Rightarrow> step_result" where
  "handle_special s KEY_LEFT = lift s (move_left (ed s))"
| "handle_special s KEY_RIGHT = lift s (move_right (ed s))"
| "handle_special s KEY_UP = lift s (move_up (ed s))"
| "handle_special s KEY_DOWN = lift s (move_down (ed s))"
| "handle_special s KEY_BACKSPACE = lift s (backspace (ed s))"
| "handle_special s KEY_DC = lift s (delete_char (ed s))"
| "handle_special s KEY_HOME = Inr (Continue, s\<lparr>ed := key_home (ed s)\<rparr>)"
| "handle_special s KEY_END = lift s (key_end (ed s))"
| "handle_special s KEY_PPAGE = Inr (Continue, s\<lparr>ed := key_page True (ed s)\<rparr>)"
| "handle_special s KEY_NPAGE = Inr (Continue, s\<lparr>ed := key_page False (ed s)\<rparr>)"
| "handle_special s k = Inr (Continue, s)"

definition run_step :: "io_fault \<Rightarrow> session \<Rightarrow> key \<Rightarrow> step_result" where
  "run_step flt s k = (case k of Ch c \<Rightarrow> handle_str flt s c | _ \<Rightarrow> handle_special s k)"

text \<open>
  The first \<open>n\<close> passes of the loop of \<^verbatim>\<open>run\<close>, each reading its key from the pending
  input. The result is \<open>Inr (Break, s)\<close> when the loop has been left, \<open>Inr (Continue, s)\<close>
  when it is about to begin pass \<open>n + 1\<close> in state \<open>s\<close>.
\<close>

fun run :: "io_fault \<Rightarrow> nat \<Rightarrow> session \<Rightarrow> step_result" where
  "run flt 0 s = Inr (Continue, s)"
| "run flt (Suc n) s =
     (case pending s of
        [] \<Rightarrow> Inl InputExhausted
      | k # ks \<Rightarrow>
          (case run_step flt (s\<lparr>pending := ks\<rparr>) k of
             Inl x \<Rightarrow> Inl x
           | Inr (Break, s') \<Rightarrow> Inr (Break, s')
           | Inr (Continue, s') \<Rightarrow> run flt n s'))"

text \<open>The cursor invariant of the data model.\<close>

definition cursor_ok :: "editor \<Rightarrow> bool" where
  "cursor_ok e =
     (0 \<le> cy e \<and> cy e < int (length (lines (buf e))) \<and>
      0 \<le> cx e \<and> cx e \<le> int (length (lines (buf e) ! nat (cy e))))"

text \<open>
  The search order in the words of the specification: the starting row from the cursor
  column, then the later rows from column 0, then, wrapping, the rows before the
  starting row from column 0. \<open>first_match\<close> takes the first position of the order
  from which \<^verbatim>\<open>str.find\<close> has a match, and \<open>spec_find\<close> moves the cursor there.
\<close>

definition search_order :: "editor \<Rightarrow> (int \<times> int) list" where
  "search_order e =
     (cy e, cx e) # map (\<lambda>y. (y, 0)) [cy e + 1..int (length (lines (buf e))) - 1]
       @ map (\<lambda>y. (y, 0)) [0..cy e - 1]"

fun first_match :: "pystr list \<Rightarrow> pystr \<Rightarrow> (int \<times> int) list \<Rightarrow> (int \<times> int) option" where
  "first_match ls term [] = None"
| "first_match ls term ((y, c) # ps) =
     (if str_find (ls ! nat y) term c \<noteq> - 1 then Some (y, str_find (ls ! nat y) term c)
      else first_match ls term ps)"

definition spec_find :: "editor \<Rightarrow> pystr \<Rightarrow> bool \<times> editor" where
  "spec_find e term =
     (case first_match (lines (buf e)) term (search_order e) of
        None \<Rightarrow> (False, e)
      | Some p \<Rightarrow> (True, found_at e term p))"

text \<open>A concrete editor for the examples: an unnamed, unmodified buffer and a cursor.\<close>

definition fixture :: "int \<times> int \<Rightarrow> pystr list \<Rightarrow> int \<Rightarrow> int \<Rightarrow> editor" where
  "fixture scr ls row col =
     (Editor_init scr \<lparr>filename = None, lines = ls, modified = False, readonly = False\<rparr>)
       \<lparr>cy := row, cx := col\<rparr>"

text \<open>A concrete buffer of two lines, the second one empty, for the examples.\<close>

definition sample_buffer :: "pystr option \<Rightarrow> bool \<Rightarrow> buffer" where
  "sample_buffer fn ro = \<lparr>filename = fn, lines = [str ''ab'', []], modified = True, readonly = ro\<rparr>"

text \<open>
  A session with no pending input and an empty file system, and the session the program
  starts in when it is called without a file argument on a terminal of 24 rows and 80
  columns, with the given keys still to be read.
\<close>

definition idle :: "editor \<Rightarrow> session" where
  "idle e = \<lparr>ed = e, pending = [], disk = Map.empty\<rparr>"

definition startup :: "key list \<Rightarrow> session" where
  "startup ks = \<lparr>ed = Editor_init (24, 80) (Buffer_init Map.empty (\<lambda>p. None) None),
              pending = ks, disk = Map.empty\<rparr>"

section \<open>Properties\<close>

subsection \<open>Python primitives inside their range\<close>

lemma nat_pred: "xs \<noteq> [] \<Longrightarrow> nat (int (length xs) - 1) = length xs - 1"
  by (cases xs) auto

lemma getitem_in_range: "0 \<le> i \<Longrightarrow> i < int (length xs) \<Longrightarrow> getitem xs i = Some (xs ! nat i)"
  by (simp add: getitem_def py_index_def)

lemma setitem_in_range: "0 \<le> i \<Longrightarrow> i < int (length xs) \<Longrightarrow> setitem xs i v = Some (xs[nat i := v])"
  by (simp add: setitem_def py_index_def)

lemma pop_in_range:
  "0 \<le> i \<Longrightarrow> i < int (length xs) \<Longrightarrow>
   pop xs i = Some (xs ! nat i, take (nat i) xs @ drop (Suc (nat i)) xs)"
  by (simp add: pop_def py_index_def)

lemma slice_to_in_range: "0 \<le> i \<Longrightarrow> i \<le> int (length xs) \<Longrightarrow> slice_to xs i = take (nat i) xs"
  by (simp add: slice_to_def slice_bound_def)

lemma slice_from_in_range: "0 \<le> i \<Longrightarrow> slice_from xs i = drop (nat i) xs"
  by (simp add: slice_from_def slice_bound_def min_def)

lemma list_insert_in_range:
  "0 \<le> i \<Longrightarrow> i \<le> int (length xs) \<Longrightarrow> list_insert xs i v = take (nat i) xs @ v # drop (nat i) xs"
  by (simp add: list_insert_def slice_bound_def Let_def)

lemma ensure_cursor_visible_frame [simp]:
  "buf (ensure_cursor_visible e) = buf e"
  "cy (ensure_cursor_visible e) = cy e"
  "cx (ensure_cursor_visible e) = cx e"
  "stdscr (ensure_cursor_visible e) = stdscr e"
  "msg (ensure_cursor_visible e) = msg e"
  "last_search (ensure_cursor_visible e) = last_search e"
  by (simp_all add: ensure_cursor_visible_def Let_def split: prod.splits)

lemma fixture_fields:
  "buf (fixture scr ls row col)
     = \<lparr>filename = None, lines = ls, modified = False, readonly = False\<rparr>"
  "cy (fixture scr ls row col) = row"
  "cx (fixture scr ls row col) = col"
  "stdscr (fixture scr ls row col) = scr"
  by (simp_all add: fixture_def Editor_init_def)

subsection \<open>No-op edge cases\<close>

text \<open>
  C7. Backspace at row 0, column 0 and forward-delete at the end of the last line change
  nothing: the whole editor state, hence lines, cursor and the modified flag, is the one
  before the key.
\<close>

theorem noop_edge_cases:
  "(cy e = 0 \<and> cx e = 0 \<longrightarrow> backspace e = Some e) \<and>
   (lines (buf e) \<noteq> [] \<and> cy e = int (length (lines (buf e))) - 1 \<and>
    cx e = int (length (last (lines (buf e)))) \<longrightarrow> delete_char e = Some e)"
  by (auto simp: backspace_def delete_char_def getitem_def py_index_def last_conv_nth nat_pred)

theorem noop_edge_cases_witness:
  "cy (fixture (24, 80) [str ''ab'', str ''c''] 0 0) = 0 \<and>
   cx (fixture (24, 80) [str ''ab'', str ''c''] 0 0) = 0 \<and>
   backspace (fixture (24, 80) [str ''ab'', str ''c''] 0 0)
     = Some (fixture (24, 80) [str ''ab'', str ''c''] 0 0) \<and>
   lines (buf (fixture (24, 80) [str ''ab'', str ''c''] 1 1)) \<noteq> [] \<and>
   cy (fixture (24, 80) [str ''ab'', str ''c''] 1 1) = 1 \<and>
   cx (fixture (24, 80) [str ''ab'', str ''c''] 1 1) = 1 \<and>
   delete_char (fixture (24, 80) [str ''ab'', str ''c''] 1 1)
     = Some (fixture (24, 80) [str ''ab'', str ''c''] 1 1)"
  using noop_edge_cases [of "fixture (24, 80) [str ''ab'', str ''c''] 0 0"]
        noop_edge_cases [of "fixture (24, 80) [str ''ab'', str ''c''] 1 1"]
  by (simp add: fixture_def Editor_init_def str_def)

subsection \<open>Viewport\<close>

text \<open>
  The reclamation step itself: on a terminal of at least two rows and two columns it puts
  the cursor inside the visible rectangle, from any state, and does not move the cursor.
  On a terminal of one row there is no text row, and the top of the viewport ends below
  the cursor.
\<close>

lemma reclaim_visible:
  assumes "stdscr e = (h, w)" and "2 \<le> h" and "2 \<le> w"
  shows "top_row (ensure_cursor_visible e) \<le> cy (ensure_cursor_visible e) \<and>
         cy (ensure_cursor_visible e) \<le> top_row (ensure_cursor_visible e) + h - 2 \<and>
         left_col (ensure_cursor_visible e) \<le> cx (ensure_cursor_visible e) \<and>
         cx (ensure_cursor_visible e) \<le> left_col (ensure_cursor_visible e) + w - 2 \<and>
         cy (ensure_cursor_visible e) = cy e \<and> cx (ensure_cursor_visible e) = cx e"
  using assms by (simp add: ensure_cursor_visible_def Let_def)

lemma reclaim_one_row:
  "stdscr (fixture (1, 80) [[]] 0 0) = (1, 80) \<and>
   \<not> top_row (ensure_cursor_visible (fixture (1, 80) [[]] 0 0))
       \<le> cy (ensure_cursor_visible (fixture (1, 80) [[]] 0 0))"
  by (simp add: fixture_def Editor_init_def ensure_cursor_visible_def)

lemma typed_past_edge:
  "insert_char (fixture (24, 80) [replicate 78 97] 0 78) [97]
     = Some (set_modified (fixture (24, 80) [replicate 79 97] 0 79))"
  by code_simp

lemma move_right_reclaims:
  "move_right (fixture (24, 80) [replicate 79 97] 0 78)
     = Some ((fixture (24, 80) [replicate 79 97] 0 79)\<lparr>left_col := 1\<rparr>)"
  by code_simp

lemma reach_edge:
  "(case run NoFault 79 (startup (replicate 79 (Ch 97))) of
      Inr (Continue, s) \<Rightarrow>
        ed s = set_modified (fixture (24, 80) [replicate 79 97] 0 79) \<and> pending s = []
    | _ \<Rightarrow> False)"
  by code_simp

lemma home_left_behind:
  "(case run NoFault 102 (startup (replicate 100 (Ch 97) @ [KEY_LEFT, KEY_HOME])) of
      Inr (Continue, s) \<Rightarrow>
        ed s = (set_modified (fixture (24, 80) [replicate 100 97] 0 0))\<lparr>left_col := 21\<rparr> \<and> pending s = []
    | _ \<Rightarrow> False)"
  by code_simp

lemma fixture_viewport:
  "top_row (fixture scr ls row col) = 0" "left_col (fixture scr ls row col) = 0"
  "top_row (set_modified e) = top_row e" "left_col (set_modified e) = left_col e"
  "cx (set_modified e) = cx e" "cy (set_modified e) = cy e" "stdscr (set_modified e) = stdscr e"
  by (simp_all add: fixture_def Editor_init_def set_modified_def)

text \<open>
  C4. The cursor does not stay inside the visible rectangle after every operation that
  moves it, because not every such operation is followed by the reclamation of the
  viewport. \<open>insert_char\<close> advances the column and, unlike \<open>move_right\<close>, does not call
  \<open>ensure_cursor_visible\<close>: on a terminal of 24 rows and 80 columns, with the cursor
  visible at column 78, a typed character leaves the cursor at column 79 with the
  viewport still at column 0, outside the columns \<open>0\<close> to \<open>78\<close> that are shown, where
  \<open>move_right\<close> from the same column scrolls to column 1. The state is reached from the
  start of the program by typing 79 characters. Home likewise leaves the cursor at
  column 0 left of a viewport that begins at column 21.
\<close>

theorem cursor_leaves_viewport:
  "stdscr (fixture (24, 80) [replicate 78 97] 0 78) = (24, 80) \<and>
   top_row (fixture (24, 80) [replicate 78 97] 0 78) \<le> cy (fixture (24, 80) [replicate 78 97] 0 78) \<and>
   cy (fixture (24, 80) [replicate 78 97] 0 78) \<le> top_row (fixture (24, 80) [replicate 78 97] 0 78) + 24 - 2 \<and>
   left_col (fixture (24, 80) [replicate 78 97] 0 78) \<le> cx (fixture (24, 80) [replicate 78 97] 0 78) \<and>
   cx (fixture (24, 80) [replicate 78 97] 0 78) \<le> left_col (fixture (24, 80) [replicate 78 97] 0 78) + 80 - 2 \<and>
   insert_char (fixture (24, 80) [replicate 78 97] 0 78) [97]
     = Some (set_modified (fixture (24, 80) [replicate 79 97] 0 79)) \<and>
   stdscr (set_modified (fixture (24, 80) [replicate 79 97] 0 79)) = (24, 80) \<and>
   \<not> cx (set_modified (fixture (24, 80) [replicate 79 97] 0 79))
       \<le> left_col (set_modified (fixture (24, 80) [replicate 79 97] 0 79)) + 80 - 2 \<and>
   move_right (fixture (24, 80) [replicate 79 97] 0 78)
     = Some ((fixture (24, 80) [replicate 79 97] 0 79)\<lparr>left_col := 1\<rparr>) \<and>
   (case run NoFault 79 (startup (replicate 79 (Ch 97))) of
      Inr (Continue, s) \<Rightarrow>
        ed s = set_modified (fixture (24, 80) [replicate 79 97] 0 79) \<and> pending s = []
    | _ \<Rightarrow> False) \<and>
   (case run NoFault 102 (startup (replicate 100 (Ch 97) @ [KEY_LEFT, KEY_HOME])) of
      Inr (Continue, s) \<Rightarrow>
        ed s = (set_modified (fixture (24, 80) [replicate 100 97] 0 0))\<lparr>left_col := 21\<rparr> \<and> pending s = []
    | _ \<Rightarrow> False) \<and>
   cx ((set_modified (fixture (24, 80) [replicate 100 97] 0 0))\<lparr>left_col := 21\<rparr>)
     < left_col ((set_modified (fixture (24, 80) [replicate 100 97] 0 0))\<lparr>left_col := 21\<rparr>)"
  using typed_past_edge move_right_reclaims reach_edge home_left_behind
  by (simp add: fixture_fields fixture_viewport)

subsection \<open>Splitting and merging a line\<close>

text \<open>
  C8. With the cursor in its bounds, at row \<open>cy\<close> and column \<open>cx\<close>, a newline splits the
  line there, and a backspace right after it gives back the original sequence of lines,
  with the cursor on the original row at column \<open>cx\<close>.
\<close>

theorem newline_then_backspace:
  assumes "cursor_ok e"
  shows "\<exists>e1 e2. insert_newline e = Some e1 \<and> backspace e1 = Some e2 \<and>
           lines (buf e1) = take (nat (cy e)) (lines (buf e))
               @ [take (nat (cx e)) (lines (buf e) ! nat (cy e)),
                  drop (nat (cx e)) (lines (buf e) ! nat (cy e))]
               @ drop (Suc (nat (cy e))) (lines (buf e)) \<and>
           lines (buf e2) = lines (buf e) \<and> cy e2 = cy e \<and> cx e2 = cx e"
proof -
  let ?ls = "lines (buf e)"
  let ?r = "nat (cy e)"
  let ?k = "nat (cx e)"
  let ?l = "?ls ! ?r"
  from assms have r: "0 \<le> cy e" "cy e < int (length ?ls)" and k: "0 \<le> cx e" "cx e \<le> int (length ?l)"
    by (simp_all add: cursor_ok_def)
  let ?ls1 = "?ls[?r := take ?k ?l]"
  let ?ls2 = "take (Suc ?r) ?ls1 @ drop ?k ?l # drop (Suc ?r) ?ls1"
  let ?e1 = "ensure_cursor_visible
               (set_modified ((set_lines e ?ls2)\<lparr>cy := cy e + 1, cx := 0\<rparr>))"
  have suc: "nat (cy e + 1) = Suc ?r" using r by simp
  have e1: "insert_newline e = Some ?e1"
    using r k
    by (simp add: insert_newline_def getitem_in_range setitem_in_range slice_to_in_range
          slice_from_in_range list_insert_in_range suc Let_def)
  have ls2: "?ls2 = take ?r ?ls @ [take ?k ?l, drop ?k ?l] @ drop (Suc ?r) ?ls"
    using r by (simp add: take_Suc_conv_app_nth)
  have len2: "length ?ls2 = Suc (length ?ls)" using r by simp
  have b1: "lines (buf ?e1) = ?ls2" "cy ?e1 = cy e + 1" "cx ?e1 = 0"
    by (simp_all add: set_modified_def set_lines_def)
  have prev: "?ls2 ! ?r = take ?k ?l" using r by (simp add: ls2 nth_append)
  have cur: "?ls2 ! Suc ?r = drop ?k ?l" using r by (simp add: ls2 nth_append)
  let ?ls3 = "take (Suc ?r) ?ls2 @ drop (Suc (Suc ?r)) ?ls2"
  let ?ls4 = "?ls3[?r := take ?k ?l @ drop ?k ?l]"
  let ?e2 = "ensure_cursor_visible
               (set_modified ((set_lines ?e1 ?ls4)\<lparr>cy := cy ?e1 - 1, cx := int (length (take ?k ?l))\<rparr>))"
  have e2: "backspace ?e1 = Some ?e2"
    unfolding backspace_def b1 using r k len2 prev cur
    by (simp add: getitem_in_range setitem_in_range pop_in_range suc del: append_take_drop_id)
  have rl: "?r < length ?ls" using r by simp
  have t3: "take (Suc ?r) ?ls2 = take ?r ?ls @ [take ?k ?l]"
    using rl by (subst ls2) (simp add: min_def)
  have d3: "drop (Suc (Suc ?r)) ?ls2 = drop (Suc ?r) ?ls"
    using rl by (subst ls2) (simp add: min_def)
  have "?ls4 = take ?r ?ls @ [?l] @ drop (Suc ?r) ?ls"
    using rl unfolding t3 d3 by (simp add: list_update_append min_def)
  also have "\<dots> = ?ls"
    using rl by (simp add: id_take_nth_drop [symmetric])
  finally have ls4: "?ls4 = ?ls" .
  have "lines (buf ?e2) = ?ls" "cy ?e2 = cy e" "cx ?e2 = cx e"
    using k ls4 by (simp_all add: set_modified_def set_lines_def)
  with e1 e2 b1(1) ls2 show ?thesis by metis
qed


theorem newline_then_backspace_witness:
  "cursor_ok (fixture (24, 80) [str ''abc'', str ''d''] 0 1) \<and>
   (\<exists>e1 e2. insert_newline (fixture (24, 80) [str ''abc'', str ''d''] 0 1) = Some e1 \<and>
      backspace e1 = Some e2 \<and>
      lines (buf e1) = [str ''a'', str ''bc'', str ''d''] \<and>
      lines (buf e2) = [str ''abc'', str ''d''] \<and> cy e2 = 0 \<and> cx e2 = 1)"
proof -
  have ok: "cursor_ok (fixture (24, 80) [str ''abc'', str ''d''] 0 1)"
    by (simp add: cursor_ok_def fixture_def Editor_init_def str_def)
  from newline_then_backspace [OF ok] show ?thesis
    by (simp add: ok) (simp add: fixture_def Editor_init_def str_def)
qed

subsection \<open>Search that finds nothing\<close>

lemma first_occ_drop: "first_occ sub (drop n s) = Some k \<Longrightarrow> first_occ sub s \<noteq> None"
proof (induction s arbitrary: n)
  case Nil
  then show ?case by simp
next
  case (Cons c cs)
  show ?case
  proof (cases n)
    case 0
    with Cons.prems show ?thesis by simp
  next
    case (Suc m)
    with Cons.prems have "first_occ sub (drop m cs) = Some k" by simp
    then have "first_occ sub cs \<noteq> None" by (rule Cons.IH)
    then show ?thesis by auto
  qed
qed

lemma str_find_absent: "\<not> contains s sub \<Longrightarrow> str_find s sub start = - 1"
  by (auto simp: str_find_def contains_def Let_def split: option.splits dest: first_occ_drop)

lemma scan_rows_absent:
  assumes "\<forall>l\<in>set ls. \<not> contains l term"
  shows "\<forall>y\<in>set ys. 0 \<le> y \<and> y < int (length ls) \<Longrightarrow> scan_rows ls term start ys = Some None"
proof (induction ys)
  case Nil
  then show ?case by simp
next
  case (Cons y ys)
  then have y: "0 \<le> y" "y < int (length ls)" by simp_all
  then have "ls ! nat y \<in> set ls" by simp
  with assms have "str_find (ls ! nat y) term (start y) = - 1" by (simp add: str_find_absent)
  with Cons y show ?case by (simp add: getitem_in_range)
qed

text \<open>
  C9. When the term occurs in no line of the document, \<open>find\<close> answers False and the editor
  state it leaves is the state it was given: cursor, viewport, lines, modified flag and
  every other field are unchanged. The cursor row is assumed to be a row of the document
  (or the row just past it); the column is arbitrary.
\<close>

theorem find_not_found:
  assumes "0 \<le> cy e" and "cy e \<le> int (length (lines (buf e)))"
    and "\<forall>l\<in>set (lines (buf e)). \<not> contains l term"
  shows "find_editor e term = Some (False, e)"
proof -
  have 1: "scan_rows (lines (buf e)) term (\<lambda>y. if y = cy e then cx e else 0)
             [cy e..int (length (lines (buf e))) - 1] = Some None"
    using assms(1) by (intro scan_rows_absent [OF assms(3)]) auto
  have 2: "scan_rows (lines (buf e)) term (\<lambda>y. 0) [0..cy e - 1] = Some None"
    using assms(2) by (intro scan_rows_absent [OF assms(3)]) auto
  show ?thesis by (simp add: find_editor_def 1 2)
qed

theorem find_not_found_witness:
  "0 \<le> cy (fixture (24, 80) [str ''ab'', str ''cb''] 1 1) \<and>
   cy (fixture (24, 80) [str ''ab'', str ''cb''] 1 1)
     \<le> int (length (lines (buf (fixture (24, 80) [str ''ab'', str ''cb''] 1 1)))) \<and>
   \<not> contains (str ''ab'') (str ''x'') \<and> \<not> contains (str ''cb'') (str ''x'') \<and>
   find_editor (fixture (24, 80) [str ''ab'', str ''cb''] 1 1) (str ''x'')
     = Some (False, fixture (24, 80) [str ''ab'', str ''cb''] 1 1)"
proof -
  have h: "0 \<le> cy (fixture (24, 80) [str ''ab'', str ''cb''] 1 1)"
    "cy (fixture (24, 80) [str ''ab'', str ''cb''] 1 1)
       \<le> int (length (lines (buf (fixture (24, 80) [str ''ab'', str ''cb''] 1 1))))"
    "\<forall>l\<in>set (lines (buf (fixture (24, 80) [str ''ab'', str ''cb''] 1 1))).
       \<not> contains l (str ''x'')"
    by (simp_all add: fixture_def Editor_init_def contains_def str_def)
  from find_not_found [OF h] h show ?thesis by (simp add: fixture_fields)
qed

subsection \<open>Saving\<close>

text \<open>
  C5. \<open>save\<close> answers \<open>(False, "No filename")\<close> when no path is set and
  \<open>(False, "File is read-only")\<close> when a path is set and the buffer is read-only, the file
  system untouched in both cases; whenever it answers False, also after a failure of
  the environment, the buffer is unchanged; when it answers True the file holds every
  line followed by a line feed and the buffer differs only in \<open>modified\<close>, now False.
\<close>

theorem save_contract:
  "(filename b = None \<or> filename b = Some [] \<longrightarrow>
      save flt fs b = ((False, str ''No filename''), b, fs)) \<and>
   (filename b = Some fn \<and> fn \<noteq> [] \<and> readonly b \<longrightarrow>
      save flt fs b = ((False, str ''File is read-only''), b, fs)) \<and>
   (fst (fst (save flt fs b)) = False \<longrightarrow> fst (snd (save flt fs b)) = b) \<and>
   (fst (fst (save flt fs b)) = True \<longrightarrow>
      (\<exists>p. filename b = Some p \<and>
           snd (snd (save flt fs b)) = fs(p \<mapsto> concat (map (\<lambda>line. line @ [10]) (lines b)))) \<and>
      fst (snd (save flt fs b)) = b\<lparr>modified := False\<rparr>)"
  by (auto simp: save_def file_text_def split: option.splits io_fault.splits)

theorem save_contract_witness:
  "save NoFault Map.empty (sample_buffer None False)
     = ((False, str ''No filename''), sample_buffer None False, Map.empty) \<and>
   save NoFault Map.empty (sample_buffer (Some (str ''f'')) True)
     = ((False, str ''File is read-only''), sample_buffer (Some (str ''f'')) True, Map.empty) \<and>
   fst (fst (save (WriteFault 1 (str ''disk full'')) Map.empty (sample_buffer (Some (str ''f'')) False)))
     = False \<and>
   fst (snd (save (WriteFault 1 (str ''disk full'')) Map.empty (sample_buffer (Some (str ''f'')) False)))
     = sample_buffer (Some (str ''f'')) False \<and>
   fst (fst (save NoFault Map.empty (sample_buffer (Some (str ''f'')) False))) = True \<and>
   snd (snd (save NoFault Map.empty (sample_buffer (Some (str ''f'')) False)))
     = [str ''f'' \<mapsto> str ''ab'' @ [10, 10]] \<and>
   fst (snd (save NoFault Map.empty (sample_buffer (Some (str ''f'')) False)))
     = (sample_buffer (Some (str ''f'')) False)\<lparr>modified := False\<rparr>"
  using save_contract [of "sample_buffer None False" NoFault Map.empty]
        save_contract [of "sample_buffer (Some (str ''f'')) True" NoFault Map.empty "str ''f''"]
        save_contract [of "sample_buffer (Some (str ''f'')) False"
                          "WriteFault 1 (str ''disk full'')" Map.empty "str ''f''"]
        save_contract [of "sample_buffer (Some (str ''f'')) False" NoFault Map.empty "str ''f''"]
  by (simp add: sample_buffer_def save_def str_def)

subsection \<open>Saving and loading again\<close>

lemma universal_newlines_id: "13 \<notin> set s \<Longrightarrow> universal_newlines s = s"
  by (induction s rule: universal_newlines.induct) auto

lemma file_lines_line:
  "10 \<notin> set l \<Longrightarrow> file_lines cur (l @ 10 # rest) = (cur @ l @ [10]) # file_lines [] rest"
  by (induction l arbitrary: cur) auto

lemma file_lines_text:
  "\<forall>l\<in>set ls. 10 \<notin> set l \<Longrightarrow> file_lines [] (file_text ls) = map (\<lambda>l. l @ [10]) ls"
  by (induction ls) (simp_all add: file_text_def file_lines_line)

lemma rstrip_nl_line: "10 \<notin> set l \<Longrightarrow> rstrip_nl (l @ [10]) = l"
proof -
  assume "10 \<notin> set l"
  then have "dropWhile (\<lambda>c. c = 10) (rev l) = rev l"
    by (cases "rev l") (auto simp: rev_swap [symmetric])
  then show ?thesis by (simp add: rstrip_nl_def)
qed

text \<open>
  C10. After a save that succeeded (which needs a path and a buffer that is not
  read-only), constructing a buffer from the same path yields the saved lines again,
  provided the buffer has at least one line and no line contains a newline character:
  a line feed or a carriage return, the two characters that reading in text mode takes
  as line ends.
\<close>

theorem save_load_roundtrip:
  assumes "save flt fs b = ((True, m), b', fs')"
    and "lines b \<noteq> []"
    and "\<forall>l\<in>set (lines b). 10 \<notin> set l \<and> 13 \<notin> set l"
  shows "\<exists>p. filename b = Some p \<and> fs' p = Some (concat (map (\<lambda>line. line @ [10]) (lines b))) \<and>
             lines (Buffer_init fs' access (Some p)) = lines b"
proof -
  from assms(1) obtain p where p: "filename b = Some p" "p \<noteq> []"
    and fs': "fs' = fs(p \<mapsto> file_text (lines b))"
    by (auto simp: save_def split: option.splits if_splits io_fault.splits)
  have "13 \<notin> set (file_text (lines b))"
    using assms(3) by (auto simp: file_text_def)
  then have un: "universal_newlines (file_text (lines b)) = file_text (lines b)"
    by (rule universal_newlines_id)
  have fl: "file_lines [] (file_text (lines b)) = map (\<lambda>l. l @ [10]) (lines b)"
    using assms(3) by (simp add: file_lines_text)
  have "map rstrip_nl (map (\<lambda>l. l @ [10]) (lines b)) = lines b"
    using assms(3) by (simp add: map_idI rstrip_nl_line)
  with un fl p fs' assms(2) show ?thesis
    by (simp add: Buffer_init_def file_text_def Let_def)
qed

theorem save_load_roundtrip_witness:
  "save NoFault Map.empty (sample_buffer (Some (str ''f'')) False)
     = ((True, str ''Saved''), (sample_buffer (Some (str ''f'')) False)\<lparr>modified := False\<rparr>,
        [str ''f'' \<mapsto> str ''ab'' @ [10, 10]]) \<and>
   lines (sample_buffer (Some (str ''f'')) False) \<noteq> [] \<and>
   10 \<notin> set (str ''ab'') \<and> 13 \<notin> set (str ''ab'') \<and>
   lines (Buffer_init [str ''f'' \<mapsto> str ''ab'' @ [10, 10]] (\<lambda>p. Some True) (Some (str ''f'')))
     = [str ''ab'', []]"
proof -
  have s: "save NoFault Map.empty (sample_buffer (Some (str ''f'')) False)
     = ((True, str ''Saved''), (sample_buffer (Some (str ''f'')) False)\<lparr>modified := False\<rparr>,
        [str ''f'' \<mapsto> str ''ab'' @ [10, 10]])"
    by (simp add: sample_buffer_def save_def str_def file_text_def)
  have l: "lines (sample_buffer (Some (str ''f'')) False) \<noteq> []"
    "\<forall>l\<in>set (lines (sample_buffer (Some (str ''f'')) False)). 10 \<notin> set l \<and> 13 \<notin> set l"
    by (simp_all add: sample_buffer_def str_def)
  from save_load_roundtrip [OF s l, of "\<lambda>p. Some True"] s l show ?thesis
    by (simp add: sample_buffer_def str_def)
qed

text \<open>A carriage return inside a line comes back as a line break.\<close>

lemma carriage_return_splits:
  "lines (Buffer_init [str ''f'' \<mapsto> file_text [[97, 13, 98]]] (\<lambda>p. Some True) (Some (str ''f'')))
     = [[97], [98]]"
  by (simp add: Buffer_init_def file_text_def rstrip_nl_def str_def)

subsection \<open>Replacing\<close>

lemma first_occ_None_replace: "first_occ sub s = None \<Longrightarrow> replace_occ sub new s = s"
  by (induction s) (auto split: if_splits)

lemma first_occ_None_count: "first_occ sub s = None \<Longrightarrow> count_occ sub s = 0"
  by (induction s) (auto split: if_splits)

lemma first_occ_empty: "first_occ [] s = Some 0"
  by (cases s) auto

lemma not_contains: "\<not> contains l f \<Longrightarrow> str_replace l f r = l \<and> str_count l f = 0"
  by (cases "f = []")
     (auto simp: contains_def str_replace_def str_count_def first_occ_empty
        first_occ_None_replace first_occ_None_count)

lemma replace_lines_eq:
  "replace_lines f r ls c =
     (map (\<lambda>l. str_replace l f r) ls, c + sum_list (map (\<lambda>l. str_count l f) ls))"
  by (induction ls arbitrary: c) (auto simp: not_contains)

lemma first_occ_leftmost:
  "sub \<noteq> [] \<Longrightarrow> take (length sub) (drop k s) = sub \<Longrightarrow>
   \<forall>j<k. take (length sub) (drop j s) \<noteq> sub \<Longrightarrow> first_occ sub s = Some k"
proof (induction s arbitrary: k)
  case Nil
  then show ?case by simp
next
  case (Cons c cs)
  show ?case
  proof (cases k)
    case 0
    with Cons.prems show ?thesis by simp
  next
    case (Suc m)
    with Cons.prems have "take (length sub) (drop m cs) = sub" by simp
    moreover have "\<forall>j<m. take (length sub) (drop j cs) \<noteq> sub"
      using Cons.prems(3) Suc by (metis Suc_less_eq drop_Suc_Cons)
    ultimately have "first_occ sub cs = Some m" using Cons.prems(1) Cons.IH by blast
    moreover have "take (length sub) (c # cs) \<noteq> sub"
      using Cons.prems(3) Suc by (metis drop0 zero_less_Suc)
    ultimately show ?thesis using Suc by simp
  qed
qed

lemma first_occ_absent:
  "sub \<noteq> [] \<Longrightarrow> \<forall>j. take (length sub) (drop j s) \<noteq> sub \<Longrightarrow> first_occ sub s = None"
proof (induction s)
  case Nil
  then show ?case by simp
next
  case (Cons c cs)
  have "take (length sub) (c # cs) \<noteq> sub" using Cons.prems(2) by (metis drop0)
  moreover have "\<forall>j. take (length sub) (drop j cs) \<noteq> sub"
    using Cons.prems(2) by (metis drop_Suc_Cons)
  ultimately show ?case using Cons by simp
qed

lemma replace_occ_first:
  "sub \<noteq> [] \<Longrightarrow> first_occ sub s = Some k \<Longrightarrow>
   replace_occ sub new s = take k s @ new @ replace_occ sub new (drop (k + length sub) s)"
proof (induction s arbitrary: k)
  case Nil
  then show ?case by simp
next
  case (Cons c cs)
  show ?case
  proof (cases "take (length sub) (c # cs) = sub")
    case True
    with Cons.prems have "k = 0" by simp
    moreover have "drop (length sub) (c # cs) = drop (length sub - 1) cs"
      using Cons.prems(1) by (cases sub) simp_all
    ultimately show ?thesis using True by simp
  next
    case False
    with Cons.prems obtain m where m: "first_occ sub cs = Some m" "k = Suc m" by auto
    with Cons.IH [OF Cons.prems(1) m(1)] False show ?thesis by simp
  qed
qed

lemma count_occ_first:
  "sub \<noteq> [] \<Longrightarrow> first_occ sub s = Some k \<Longrightarrow>
   count_occ sub s = Suc (count_occ sub (drop (k + length sub) s))"
proof (induction s arbitrary: k)
  case Nil
  then show ?case by simp
next
  case (Cons c cs)
  show ?case
  proof (cases "take (length sub) (c # cs) = sub")
    case True
    with Cons.prems have "k = 0" by simp
    moreover have "drop (length sub) (c # cs) = drop (length sub - 1) cs"
      using Cons.prems(1) by (cases sub) simp_all
    ultimately show ?thesis using True by simp
  next
    case False
    with Cons.prems obtain m where m: "first_occ sub cs = Some m" "k = Suc m" by auto
    with Cons.IH [OF Cons.prems(1) m(1)] False show ?thesis by simp
  qed
qed

text \<open>
  C6. \<open>replace_all\<close> returns the sum over all lines of the number of occurrences of the
  search term, replaces every line by its \<open>str.replace\<close> image and makes \<open>modified\<close> true
  exactly when the count is not zero (otherwise the flag keeps its value). Replacement
  and count go leftmost first and never overlap or look into inserted text: when the
  leftmost occurrence of a non-empty term \<open>f\<close> in \<open>s\<close> starts at \<open>k\<close>, the result is \<open>s\<close>
  up to \<open>k\<close>, the replacement, and the result for the rest of \<open>s\<close> behind the occurrence;
  when \<open>f\<close> does not occur, \<open>s\<close> stays and counts 0. On \<open>["aaa", "xax"]\<close>, replacing
  \<open>"a"\<close> by \<open>"bb"\<close> returns 4 and yields \<open>["bbbbbb", "xbbx"]\<close>.
\<close>

theorem replace_all_contract:
  "fst (replace_all e f r) = sum_list (map (\<lambda>l. str_count l f) (lines (buf e))) \<and>
   lines (buf (snd (replace_all e f r))) = map (\<lambda>l. str_replace l f r) (lines (buf e)) \<and>
   modified (buf (snd (replace_all e f r))) = (modified (buf e) \<or> 0 < fst (replace_all e f r)) \<and>
   (f \<noteq> [] \<and> take (length f) (drop k s) = f \<and> (\<forall>j<k. take (length f) (drop j s) \<noteq> f) \<longrightarrow>
      str_replace s f r = take k s @ r @ str_replace (drop (k + length f) s) f r \<and>
      str_count s f = Suc (str_count (drop (k + length f) s) f)) \<and>
   (f \<noteq> [] \<and> (\<forall>j. take (length f) (drop j s) \<noteq> f) \<longrightarrow>
      str_replace s f r = s \<and> str_count s f = 0) \<and>
   replace_all (fixture (24, 80) [str ''aaa'', str ''xax''] 0 0) (str ''a'') (str ''bb'')
     = (4, set_modified (set_lines (fixture (24, 80) [str ''aaa'', str ''xax''] 0 0)
                           [str ''bbbbbb'', str ''xbbx'']))"
proof -
  have 1: "fst (replace_all e f r) = sum_list (map (\<lambda>l. str_count l f) (lines (buf e)))"
    by (simp add: replace_all_def replace_lines_eq Let_def)
  have 2: "lines (buf (snd (replace_all e f r))) = map (\<lambda>l. str_replace l f r) (lines (buf e))"
    by (simp add: replace_all_def replace_lines_eq set_lines_def set_modified_def Let_def)
  have 3: "modified (buf (snd (replace_all e f r)))
             = (modified (buf e) \<or> 0 < fst (replace_all e f r))"
  proof -
    obtain ls n where rl: "replace_lines f r (lines (buf e)) 0 = (ls, n)" by force
    show ?thesis
      by (cases "0 < n") (simp_all add: replace_all_def rl set_lines_def set_modified_def)
  qed
  have 4: "str_replace s f r = take k s @ r @ str_replace (drop (k + length f) s) f r \<and>
           str_count s f = Suc (str_count (drop (k + length f) s) f)"
    if "f \<noteq> []" "take (length f) (drop k s) = f" "\<forall>j<k. take (length f) (drop j s) \<noteq> f"
  proof -
    from that have "first_occ f s = Some k" by (rule first_occ_leftmost)
    with that(1) show ?thesis
      by (simp add: str_replace_def str_count_def replace_occ_first count_occ_first)
  qed
  have 5: "str_replace s f r = s \<and> str_count s f = 0"
    if "f \<noteq> []" "\<forall>j. take (length f) (drop j s) \<noteq> f"
  proof -
    from that have "first_occ f s = None" by (rule first_occ_absent)
    with that(1) show ?thesis
      by (simp add: str_replace_def str_count_def first_occ_None_replace first_occ_None_count)
  qed
  have 6: "replace_all (fixture (24, 80) [str ''aaa'', str ''xax''] 0 0) (str ''a'') (str ''bb'')
     = (4, set_modified (set_lines (fixture (24, 80) [str ''aaa'', str ''xax''] 0 0)
                           [str ''bbbbbb'', str ''xbbx'']))"
  proof -
    have "replace_lines (str ''a'') (str ''bb'') [str ''aaa'', str ''xax''] 0
            = ([str ''bbbbbb'', str ''xbbx''], 4)"
      by (simp add: contains_def str_replace_def str_count_def str_def)
    then show ?thesis by (simp add: replace_all_def fixture_fields)
  qed
  from 1 2 3 4 5 6 show ?thesis by blast
qed


theorem replace_all_contract_witness:
  "str ''a'' \<noteq> [] \<and> take (length (str ''a'')) (drop 1 (str ''ba'')) = str ''a'' \<and>
   take (length (str ''a'')) (drop 0 (str ''ba'')) \<noteq> str ''a'' \<and>
   str_replace (str ''ba'') (str ''a'') (str ''aa'') = str ''baa'' \<and>
   str_count (str ''ba'') (str ''a'') = 1 \<and>
   \<not> contains (str ''xyz'') (str ''a'') \<and>
   str_replace (str ''xyz'') (str ''a'') (str ''aa'') = str ''xyz'' \<and>
   str_count (str ''xyz'') (str ''a'') = 0"
proof -
  have absent: "take (length (str ''a'')) (drop j (str ''xyz'')) \<noteq> str ''a''" for j
  proof
    assume "take (length (str ''a'')) (drop j (str ''xyz'')) = str ''a''"
    then have "97 \<in> set (take (length (str ''a'')) (drop j (str ''xyz'')))"
      by (simp add: str_def)
    then have "97 \<in> set (str ''xyz'')" by (meson in_set_dropD in_set_takeD)
    then show False by (simp add: str_def)
  qed
  have present: "str ''a'' \<noteq> []" "take (length (str ''a'')) (drop 1 (str ''ba'')) = str ''a''"
    "\<forall>j<1. take (length (str ''a'')) (drop j (str ''ba'')) \<noteq> str ''a''"
    by (simp_all add: str_def)
  from replace_all_contract [of _ "str ''a''" "str ''aa''" 1 "str ''ba''"]
       replace_all_contract [of _ "str ''a''" "str ''aa''" _ "str ''xyz''"]
       absent present
  show ?thesis by (simp add: str_replace_def str_count_def contains_def str_def)
qed

subsection \<open>Search order\<close>

lemma scan_rows_first_match:
  "\<forall>y\<in>set ys. 0 \<le> y \<and> y < int (length ls) \<Longrightarrow>
   scan_rows ls term start ys = Some (first_match ls term (map (\<lambda>y. (y, start y)) ys))"
  by (induction ys) (simp_all add: getitem_in_range Let_def)

lemma first_match_append:
  "first_match ls term (ps @ qs) =
     (case first_match ls term ps of None \<Rightarrow> first_match ls term qs | Some p \<Rightarrow> Some p)"
  by (induction ps) auto

lemma find_editor_spec:
  assumes "0 \<le> cy e" and "cy e < int (length (lines (buf e)))"
  shows "find_editor e term = Some (spec_find e term)"
proof -
  let ?ls = "lines (buf e)"
  let ?n = "int (length ?ls)"
  let ?start = "\<lambda>y. if y = cy e then cx e else 0"
  have rows: "[cy e..?n - 1] = cy e # [cy e + 1..?n - 1]"
    using assms(2) by (simp add: upto_rec1)
  have later: "map (\<lambda>y. (y, ?start y)) [cy e + 1..?n - 1] = map (\<lambda>y. (y, 0)) [cy e + 1..?n - 1]"
    by (rule map_cong) auto
  have 1: "scan_rows ?ls term ?start [cy e..?n - 1]
        = Some (first_match ?ls term ((cy e, cx e) # map (\<lambda>y. (y, 0)) [cy e + 1..?n - 1]))"
    using assms by (subst scan_rows_first_match) (auto simp: rows later simp del: first_match.simps)
  have 2: "scan_rows ?ls term (\<lambda>y. 0) [0..cy e - 1]
        = Some (first_match ?ls term (map (\<lambda>y. (y, 0)) [0..cy e - 1]))"
    using assms(2) by (subst scan_rows_first_match) auto
  have so: "search_order e = ((cy e, cx e) # map (\<lambda>y. (y, 0)) [cy e + 1..?n - 1])
              @ map (\<lambda>y. (y, 0)) [0..cy e - 1]"
    by (simp add: search_order_def)
  show ?thesis
    unfolding find_editor_def 1 2 spec_find_def so first_match_append
    by (simp split: option.splits)
qed

lemma first_occ_SomeD:
  "first_occ sub s = Some k \<Longrightarrow> take (length sub) (drop k s) = sub \<and> k \<le> length s"
proof (induction s arbitrary: k)
  case Nil
  then show ?case by (simp split: if_splits)
next
  case (Cons c cs)
  show ?case
  proof (cases "take (length sub) (c # cs) = sub")
    case True
    with Cons.prems show ?thesis by simp
  next
    case False
    with Cons.prems obtain m where "first_occ sub cs = Some m" "k = Suc m" by auto
    with Cons.IH show ?thesis by simp
  qed
qed

lemma first_occ_here: "take (length sub) s = sub \<Longrightarrow> first_occ sub s = Some 0"
  by (cases s) auto

lemma str_find_fixpoint:
  assumes "str_find s sub st = x" and "x \<noteq> - 1"
  shows "str_find s sub x = x \<and> 0 \<le> x \<and> x \<le> int (length s)"
proof -
  define p where "p = (if st < 0 then nat (int (length s) + st) else nat st)"
  have sf: "str_find s sub st =
      (if length s < p then - 1
       else case first_occ sub (drop p s) of None \<Rightarrow> - 1 | Some k \<Rightarrow> int (p + k))"
    unfolding str_find_def Let_def p_def by (rule refl)
  with assms have p: "p \<le> length s" by (auto split: if_splits)
  with sf assms obtain k where k: "first_occ sub (drop p s) = Some k" and x: "x = int (p + k)"
    by (auto split: option.splits)
  from first_occ_SomeD [OF k] have "take (length sub) (drop (k + p) s) = sub" and "k \<le> length s - p"
    by simp_all
  then have "first_occ sub (drop (p + k) s) = Some 0" and "p + k \<le> length s"
    using p by (simp_all add: first_occ_here add.commute)
  with x show ?thesis by (simp add: str_find_def Let_def nat_add_distrib)
qed

lemma first_match_in_order:
  "first_match ls term ps = Some (y, x) \<Longrightarrow>
   \<exists>c. (y, c) \<in> set ps \<and> str_find (ls ! nat y) term c = x \<and> x \<noteq> - 1"
  by (induction ps) (auto split: if_splits)

lemma find_editor_stays:
  assumes "0 \<le> cy e" and "cy e < int (length (lines (buf e)))"
    and "find_editor e term = Some (True, e1)"
  shows "\<exists>e2. find_editor e1 term = Some (True, e2) \<and> cy e2 = cy e1 \<and> cx e2 = cx e1"
proof -
  let ?ls = "lines (buf e)"
  from assms have "spec_find e term = (True, e1)" by (simp add: find_editor_spec)
  then obtain y x where fm: "first_match ?ls term (search_order e) = Some (y, x)"
    and e1: "e1 = found_at e term (y, x)"
    by (auto simp: spec_find_def split: option.splits)
  from first_match_in_order [OF fm] obtain c where c: "(y, c) \<in> set (search_order e)"
    and sf: "str_find (?ls ! nat y) term c = x" "x \<noteq> - 1"
    by blast
  from c assms(1,2) have y: "0 \<le> y" "y < int (length ?ls)"
    by (auto simp: search_order_def)
  from str_find_fixpoint [OF sf] have fp: "str_find (?ls ! nat y) term x = x" by simp
  have f1: "lines (buf e1) = ?ls" "cy e1 = y" "cx e1 = x"
    by (simp_all add: e1 found_at_def)
  have so: "search_order e1 = (y, x) # tl (search_order e1)"
    by (simp add: search_order_def f1)
  have "first_match (lines (buf e1)) term (search_order e1) = Some (y, x)"
    using fp sf(2) by (subst so) (simp add: f1)
  then have "spec_find e1 term = (True, found_at e1 term (y, x))"
    by (simp add: spec_find_def)
  moreover have "find_editor e1 term = Some (spec_find e1 term)"
    using y by (intro find_editor_spec) (simp_all add: f1)
  ultimately show ?thesis by (simp add: found_at_def f1)
qed

lemma find_example_on_match:
  "find_editor (fixture (24, 80) [str ''ab'', str ''cb''] 0 1) (str ''b'')
     = Some (True, (fixture (24, 80) [str ''ab'', str ''cb''] 0 1)\<lparr>last_search := Some (str ''b'')\<rparr>)"
  by (simp add: find_editor_def fixture_def Editor_init_def str_def str_find_def found_at_def
        ensure_cursor_visible_def getitem_def py_index_def upto_rec1)

lemma find_example_again:
  "find_editor ((fixture (24, 80) [str ''ab'', str ''cb''] 0 1)\<lparr>last_search := Some (str ''b'')\<rparr>)
       (str ''b'')
     = Some (True, (fixture (24, 80) [str ''ab'', str ''cb''] 0 1)\<lparr>last_search := Some (str ''b'')\<rparr>)"
  by (simp add: find_editor_def fixture_def Editor_init_def str_def str_find_def found_at_def
        ensure_cursor_visible_def getitem_def py_index_def upto_rec1)

lemma find_example_next_row:
  "find_editor (fixture (24, 80) [str ''ab'', str ''cb''] 0 2) (str ''b'')
     = Some (True, (fixture (24, 80) [str ''ab'', str ''cb''] 1 1)\<lparr>last_search := Some (str ''b'')\<rparr>)"
  by (simp add: find_editor_def fixture_def Editor_init_def str_def str_find_def found_at_def
        ensure_cursor_visible_def getitem_def py_index_def upto_rec1)

lemma find_example_wrap:
  "find_editor (fixture (24, 80) [str ''ab'', str ''cb''] 1 2) (str ''b'')
     = Some (True, (fixture (24, 80) [str ''ab'', str ''cb''] 0 1)\<lparr>last_search := Some (str ''b'')\<rparr>)"
  by (simp add: find_editor_def fixture_def Editor_init_def str_def str_find_def found_at_def
        ensure_cursor_visible_def getitem_def py_index_def upto_rec1)

text \<open>
  C3 (as amended). With the cursor on a row of the document, \<open>find\<close> is the search in
  the order of the specification: from the cursor column on the starting row, from
  column 0 on the later rows, then from row 0 up to the row before the starting one.
  A search that starts on a match stays on it, because the scan of the starting row
  begins at the cursor column itself. On \<open>["ab", "cb"]\<close> with the cursor at \<open>(0,1)\<close>,
  \<open>find("b")\<close> matches row 0, column 1, and so does every later \<open>find("b")\<close>; from
  \<open>(0,2)\<close> the match is on row 1, column 1, and from \<open>(1,2)\<close> the search wraps to row 0,
  column 1.
\<close>

theorem find_scan_order:
  "(0 \<le> cy e \<and> cy e < int (length (lines (buf e))) \<longrightarrow>
      find_editor e term = Some (spec_find e term)) \<and>
   (0 \<le> cy e \<and> cy e < int (length (lines (buf e))) \<and> find_editor e term = Some (True, e1) \<longrightarrow>
      (\<exists>e2. find_editor e1 term = Some (True, e2) \<and> cy e2 = cy e1 \<and> cx e2 = cx e1)) \<and>
   find_editor (fixture (24, 80) [str ''ab'', str ''cb''] 0 1) (str ''b'')
     = Some (True, (fixture (24, 80) [str ''ab'', str ''cb''] 0 1)\<lparr>last_search := Some (str ''b'')\<rparr>) \<and>
   find_editor ((fixture (24, 80) [str ''ab'', str ''cb''] 0 1)\<lparr>last_search := Some (str ''b'')\<rparr>)
       (str ''b'')
     = Some (True, (fixture (24, 80) [str ''ab'', str ''cb''] 0 1)\<lparr>last_search := Some (str ''b'')\<rparr>) \<and>
   find_editor (fixture (24, 80) [str ''ab'', str ''cb''] 0 2) (str ''b'')
     = Some (True, (fixture (24, 80) [str ''ab'', str ''cb''] 1 1)\<lparr>last_search := Some (str ''b'')\<rparr>) \<and>
   find_editor (fixture (24, 80) [str ''ab'', str ''cb''] 1 2) (str ''b'')
     = Some (True, (fixture (24, 80) [str ''ab'', str ''cb''] 0 1)\<lparr>last_search := Some (str ''b'')\<rparr>)"
  using find_editor_spec [of e "term"] find_editor_stays [of e "term" e1]
    find_example_on_match find_example_again find_example_next_row find_example_wrap
  by blast

theorem find_scan_order_witness:
  "0 \<le> cy (fixture (24, 80) [str ''ab'', str ''cb''] 1 2) \<and>
   cy (fixture (24, 80) [str ''ab'', str ''cb''] 1 2)
     < int (length (lines (buf (fixture (24, 80) [str ''ab'', str ''cb''] 1 2)))) \<and>
   search_order (fixture (24, 80) [str ''ab'', str ''cb''] 1 2) = [(1, 2), (0, 0)] \<and>
   spec_find (fixture (24, 80) [str ''ab'', str ''cb''] 1 2) (str ''b'')
     = (True, (fixture (24, 80) [str ''ab'', str ''cb''] 0 1)\<lparr>last_search := Some (str ''b'')\<rparr>) \<and>
   find_editor (fixture (24, 80) [str ''ab'', str ''cb''] 1 2) (str ''b'')
     = Some (True, (fixture (24, 80) [str ''ab'', str ''cb''] 0 1)\<lparr>last_search := Some (str ''b'')\<rparr>) \<and>
   (\<exists>e2. find_editor ((fixture (24, 80) [str ''ab'', str ''cb''] 0 1)\<lparr>last_search := Some (str ''b'')\<rparr>)
            (str ''b'') = Some (True, e2) \<and> cy e2 = 0 \<and> cx e2 = 1)"
proof -
  have h: "0 \<le> cy (fixture (24, 80) [str ''ab'', str ''cb''] 1 2)"
    "cy (fixture (24, 80) [str ''ab'', str ''cb''] 1 2)
       < int (length (lines (buf (fixture (24, 80) [str ''ab'', str ''cb''] 1 2))))"
    by (simp_all add: fixture_fields)
  have so: "search_order (fixture (24, 80) [str ''ab'', str ''cb''] 1 2) = [(1, 2), (0, 0)]"
    by (simp add: search_order_def fixture_fields upto_rec1)
  have sp: "spec_find (fixture (24, 80) [str ''ab'', str ''cb''] 1 2) (str ''b'')
     = (True, (fixture (24, 80) [str ''ab'', str ''cb''] 0 1)\<lparr>last_search := Some (str ''b'')\<rparr>)"
    by (simp add: spec_find_def so)
       (simp add: fixture_def Editor_init_def str_def str_find_def found_at_def
          ensure_cursor_visible_def)
  from find_scan_order
    [of "fixture (24, 80) [str ''ab'', str ''cb''] 1 2" "str ''b''"
        "(fixture (24, 80) [str ''ab'', str ''cb''] 0 1)\<lparr>last_search := Some (str ''b'')\<rparr>"]
    h so sp
  show ?thesis by (simp add: fixture_def Editor_init_def)
qed

text \<open>The second \<open>find("b")\<close> of the example is on row 0 again, not on row 1.\<close>

theorem find_repeat_counterexample:
  "find_editor (fixture (24, 80) [str ''ab'', str ''cb''] 0 1) (str ''b'')
     = Some (True, (fixture (24, 80) [str ''ab'', str ''cb''] 0 1)\<lparr>last_search := Some (str ''b'')\<rparr>) \<and>
   find_editor ((fixture (24, 80) [str ''ab'', str ''cb''] 0 1)\<lparr>last_search := Some (str ''b'')\<rparr>)
       (str ''b'')
     = Some (True, (fixture (24, 80) [str ''ab'', str ''cb''] 0 1)\<lparr>last_search := Some (str ''b'')\<rparr>) \<and>
   cy ((fixture (24, 80) [str ''ab'', str ''cb''] 0 1)\<lparr>last_search := Some (str ''b'')\<rparr>) \<noteq> 1"
  using find_example_on_match find_example_again by (simp add: fixture_fields)


subsection \<open>Evaluation of concrete sessions\<close>

lemmas eval_defs =
  run_step_def handle_str_def lift_def idle_def insert_newline_def insert_char_def fixture_def
  Editor_init_def Buffer_init_def startup_def str_def getitem_def setitem_def py_index_def
  slice_to_def slice_from_def slice_bound_def list_insert_def set_lines_def set_modified_def
  ensure_cursor_visible_def ctrl_r_def prompt_input_def lower_startswith_y_def replace_all_def
  contains_def str_replace_def str_count_def key_page_def key_end_def move_up_def

subsection \<open>Characters that reach the text\<close>






















lemma insert_char_in_bounds:
  assumes "cursor_ok e"
  shows "insert_char e ch =
           Some (set_modified
             ((set_lines e ((lines (buf e))[nat (cy e) :=
                   take (nat (cx e)) (lines (buf e) ! nat (cy e)) @ ch
                     @ drop (nat (cx e)) (lines (buf e) ! nat (cy e))]))\<lparr>cx := cx e + 1\<rparr>))"
  using assms
  by (simp add: cursor_ok_def insert_char_def getitem_in_range setitem_in_range
        slice_to_in_range slice_from_in_range)







subsection \<open>Cursor bounds\<close>

text \<open>
  The cursor movements, the editing operations, Home, End and \<open>find\<close> keep the cursor in
  its bounds and do not raise.
\<close>

lemma cursor_ok_reclaim [simp]: "cursor_ok (ensure_cursor_visible e) = cursor_ok e"
  by (simp add: cursor_ok_def)

lemma move_left_ok: "cursor_ok e \<Longrightarrow> \<exists>e'. move_left e = Some e' \<and> cursor_ok e'"
  by (auto simp: move_left_def cursor_ok_def getitem_in_range Let_def)

lemma move_right_ok: "cursor_ok e \<Longrightarrow> \<exists>e'. move_right e = Some e' \<and> cursor_ok e'"
  by (auto simp: move_right_def cursor_ok_def getitem_in_range Let_def)

lemma move_up_ok: "cursor_ok e \<Longrightarrow> \<exists>e'. move_up e = Some e' \<and> cursor_ok e'"
  by (auto simp: move_up_def cursor_ok_def getitem_in_range Let_def)

lemma move_down_ok: "cursor_ok e \<Longrightarrow> \<exists>e'. move_down e = Some e' \<and> cursor_ok e'"
  by (auto simp: move_down_def cursor_ok_def getitem_in_range Let_def)

lemma key_home_ok: "cursor_ok e \<Longrightarrow> cursor_ok (key_home e)"
  by (simp add: key_home_def cursor_ok_def)

lemma key_end_ok: "cursor_ok e \<Longrightarrow> \<exists>e'. key_end e = Some e' \<and> cursor_ok e'"
  by (auto simp: key_end_def cursor_ok_def getitem_in_range)

lemma insert_char_ok: "cursor_ok e \<Longrightarrow> \<exists>e'. insert_char e [c] = Some e' \<and> cursor_ok e'"
  by (auto simp: insert_char_in_bounds cursor_ok_def set_lines_def set_modified_def)

lemma delete_char_ok: "cursor_ok e \<Longrightarrow> \<exists>e'. delete_char e = Some e' \<and> cursor_ok e'"
  by (auto simp: delete_char_def cursor_ok_def getitem_in_range setitem_in_range pop_in_range
        slice_to_in_range slice_from_in_range set_lines_def set_modified_def nth_append
        nth_list_update min_def)

lemma insert_newline_ok: "cursor_ok e \<Longrightarrow> \<exists>e'. insert_newline e = Some e' \<and> cursor_ok e'"
  by (auto simp: insert_newline_def cursor_ok_def getitem_in_range setitem_in_range
        slice_to_in_range slice_from_in_range list_insert_in_range set_lines_def set_modified_def
        Let_def)

lemma backspace_ok: "cursor_ok e \<Longrightarrow> \<exists>e'. backspace e = Some e' \<and> cursor_ok e'"
proof (cases "0 < cx e")
  case True
  assume "cursor_ok e"
  with True show ?thesis
    by (auto simp: backspace_def cursor_ok_def getitem_in_range setitem_in_range
          slice_to_in_range slice_from_in_range set_lines_def set_modified_def)
next
  case False
  assume ok: "cursor_ok e"
  show ?thesis
  proof (cases "0 < cy e")
    case True
    with False ok show ?thesis
      by (auto simp: backspace_def cursor_ok_def getitem_in_range setitem_in_range pop_in_range
            set_lines_def set_modified_def nth_append min_def nat_diff_distrib)
  next
    case False
    with \<open>\<not> 0 < cx e\<close> ok show ?thesis by (simp add: backspace_def)
  qed
qed

lemma find_editor_ok:
  assumes "cursor_ok e" and "find_editor e term = Some (found, e')"
  shows "cursor_ok e'"
proof -
  from assms(1) have r: "0 \<le> cy e" "cy e < int (length (lines (buf e)))"
    by (simp_all add: cursor_ok_def)
  with assms(2) have sp: "spec_find e term = (found, e')" by (simp add: find_editor_spec)
  show ?thesis
  proof (cases "first_match (lines (buf e)) term (search_order e)")
    case None
    with sp assms(1) show ?thesis by (simp add: spec_find_def)
  next
    case (Some p)
    obtain y x where p: "p = (y, x)" by (cases p)
    from first_match_in_order [OF Some [unfolded p]] obtain c
      where c: "(y, c) \<in> set (search_order e)"
        and sf: "str_find (lines (buf e) ! nat y) term c = x" "x \<noteq> - 1" by blast
    from c r have "0 \<le> y" "y < int (length (lines (buf e)))" by (auto simp: search_order_def)
    moreover from str_find_fixpoint [OF sf] have "0 \<le> x" "x \<le> int (length (lines (buf e) ! nat y))"
      by simp_all
    moreover from sp Some p have "e' = found_at e term (y, x)" by (simp add: spec_find_def)
    ultimately show ?thesis by (simp add: cursor_ok_def found_at_def)
  qed
qed

lemma reach_replace:
  "run NoFault (Suc (Suc (Suc (Suc 0))))
     (startup [Ch 97, Ch 97, Ch 97, Ch 18, Ch 97, Ch 10, Ch 10, Ch 121, Ch 10])
   = Inr (Continue,
          idle ((set_modified (fixture (24, 80) [[]] 0 3))\<lparr>msg := str ''Replaced 3 occurrences''\<rparr>))"
  by (simp add: eval_defs decimal.simps)

lemma reach_page:
  "run NoFault (Suc (Suc (Suc (Suc (Suc (Suc (Suc 0)))))))
     (startup [Ch 97, Ch 97, Ch 97, Ch 10, KEY_UP, KEY_END, KEY_NPAGE])
   = Inr (Continue, idle (set_modified (fixture (24, 80) [str ''aaa'', []] 1 3)))"
  by (simp add: eval_defs)

text \<open>
  C1. \<open>replace_all\<close> and the page keys do not keep the cursor in its bounds. Replacing
  \<open>"a"\<close> by the empty string on the line \<open>"aaa"\<close> with the cursor at column 3 leaves the
  cursor at column 3 of an empty line; Page Down from the end of \<open>"abc"\<close> to an empty
  line (and Page Up likewise) keeps column 3. Both states are reached from the start of
  the program by keys alone: \<open>a a a Ctrl-R a Enter Enter y Enter\<close>, and
  \<open>a a a Enter Up End PageDown\<close>.
\<close>

theorem cursor_bounds_broken:
  "cursor_ok (fixture (24, 80) [str ''aaa''] 0 3) \<and>
   replace_all (fixture (24, 80) [str ''aaa''] 0 3) (str ''a'') []
     = (3, set_modified (fixture (24, 80) [[]] 0 3)) \<and>
   \<not> cursor_ok (set_modified (fixture (24, 80) [[]] 0 3)) \<and>
   cursor_ok (fixture (24, 80) [str ''abc'', []] 0 3) \<and>
   key_page False (fixture (24, 80) [str ''abc'', []] 0 3) = fixture (24, 80) [str ''abc'', []] 1 3 \<and>
   key_page True (fixture (24, 80) [[], str ''abc''] 1 3) = fixture (24, 80) [[], str ''abc''] 0 3 \<and>
   \<not> cursor_ok (fixture (24, 80) [str ''abc'', []] 1 3) \<and>
   \<not> cursor_ok (fixture (24, 80) [[], str ''abc''] 0 3) \<and>
   run NoFault (Suc (Suc (Suc (Suc 0))))
     (startup [Ch 97, Ch 97, Ch 97, Ch 18, Ch 97, Ch 10, Ch 10, Ch 121, Ch 10])
   = Inr (Continue,
          idle ((set_modified (fixture (24, 80) [[]] 0 3))\<lparr>msg := str ''Replaced 3 occurrences''\<rparr>)) \<and>
   run NoFault (Suc (Suc (Suc (Suc (Suc (Suc (Suc 0)))))))
     (startup [Ch 97, Ch 97, Ch 97, Ch 10, KEY_UP, KEY_END, KEY_NPAGE])
   = Inr (Continue, idle (set_modified (fixture (24, 80) [str ''aaa'', []] 1 3)))"
proof -
  have 1: "cursor_ok (fixture (24, 80) [str ''aaa''] 0 3)"
    "cursor_ok (fixture (24, 80) [str ''abc'', []] 0 3)"
    "\<not> cursor_ok (set_modified (fixture (24, 80) [[]] 0 3))"
    "\<not> cursor_ok (fixture (24, 80) [str ''abc'', []] 1 3)"
    "\<not> cursor_ok (fixture (24, 80) [[], str ''abc''] 0 3)"
    by (simp_all add: cursor_ok_def fixture_fields set_modified_def str_def)
  have 2: "replace_all (fixture (24, 80) [str ''aaa''] 0 3) (str ''a'') []
     = (3, set_modified (fixture (24, 80) [[]] 0 3))"
    by (simp add: eval_defs)
  have 3: "key_page False (fixture (24, 80) [str ''abc'', []] 0 3) = fixture (24, 80) [str ''abc'', []] 1 3"
    "key_page True (fixture (24, 80) [[], str ''abc''] 1 3) = fixture (24, 80) [[], str ''abc''] 0 3"
    by (simp_all add: eval_defs)
  from 1 2 3 reach_replace reach_page show ?thesis by simp
qed


end
